theory Spec2Isabelle
  imports Main "HOL-Library.Word" "HOL-Library.Sublist"
begin

section \<open>JavaScript strings\<close>

text \<open>
  A JavaScript string is a sequence of 16-bit code units. Literals of the source are
  written through \<open>ascii\<close>, which maps each character to its code unit.
\<close>

type_synonym jschar = "16 word"
type_synonym jsstring = "jschar list"

definition ascii :: "string \<Rightarrow> jsstring" where
  "ascii s = map of_char s"

definition LF :: jschar where
  "LF = 0x0A"

text \<open>The code units matched by \<open>\s\<close> in a regular expression without the \<open>u\<close> flag.\<close>

definition js_space :: "jschar \<Rightarrow> bool" where
  "js_space c =
     (c = 0x09 \<or> c = 0x0A \<or> c = 0x0B \<or> c = 0x0C \<or> c = 0x0D \<or> c = 0x20 \<or> c = 0xA0
      \<or> c = 0x1680 \<or> (0x2000 \<le> c \<and> c \<le> 0x200A) \<or> c = 0x2028 \<or> c = 0x2029
      \<or> c = 0x202F \<or> c = 0x205F \<or> c = 0x3000 \<or> c = 0xFEFF)"

subsection \<open>split, join, indexOf, slice\<close>

text \<open>
  \<open>s.split(sep)\<close> for a separator of one code unit: the pieces between the separators, in
  order; the empty string gives one empty piece.
\<close>

fun js_split_acc :: "jschar \<Rightarrow> jsstring \<Rightarrow> jsstring \<Rightarrow> jsstring list" where
  "js_split_acc sep cur [] = [cur]"
| "js_split_acc sep cur (c # cs) =
     (if c = sep then cur # js_split_acc sep [] cs else js_split_acc sep (cur @ [c]) cs)"

definition js_split :: "jschar \<Rightarrow> jsstring \<Rightarrow> jsstring list" where
  "js_split sep s = js_split_acc sep [] s"

text \<open>\<open>xs.join(sep)\<close> on an array of strings.\<close>

fun js_join :: "jsstring \<Rightarrow> jsstring list \<Rightarrow> jsstring" where
  "js_join sep [] = []"
| "js_join sep [x] = x"
| "js_join sep (x # y # ys) = x @ sep @ js_join sep (y # ys)"

text \<open>
  \<open>s.indexOf(needle)\<close>: the index of the first occurrence, \<open>-1\<close> when there is none.
\<close>

fun indexOf_from :: "nat \<Rightarrow> jsstring \<Rightarrow> jsstring \<Rightarrow> int" where
  "indexOf_from k needle [] = (if needle = [] then int k else - 1)"
| "indexOf_from k needle (c # cs) =
     (if prefix needle (c # cs) then int k else indexOf_from (Suc k) needle cs)"

definition indexOf :: "jsstring \<Rightarrow> jsstring \<Rightarrow> int" where
  "indexOf s needle = indexOf_from 0 needle s"

text \<open>
  \<open>s.slice(start, end)\<close> and \<open>s.slice(start)\<close>: a negative index counts from the end, and
  both are clamped to the string.
\<close>

definition slice_index :: "nat \<Rightarrow> int \<Rightarrow> nat" where
  "slice_index len i = (if i < 0 then nat (max (int len + i) 0) else min (nat i) len)"

definition js_slice :: "jsstring \<Rightarrow> int \<Rightarrow> int \<Rightarrow> jsstring" where
  "js_slice s start end =
     (let from = slice_index (length s) start; to = slice_index (length s) end
      in take (to - from) (drop from s))"

definition js_slice_from :: "jsstring \<Rightarrow> int \<Rightarrow> jsstring" where
  "js_slice_from s start = drop (slice_index (length s) start) s"

subsection \<open>Regular expressions\<close>

text \<open>
  The two regular expressions of the source are sequences of single-character atoms, each
  taken once, or under \<open>*\<close> or \<open>+\<close>. \<open>re_match r s\<close> matches \<open>r\<close> at the start of \<open>s\<close>
  as a backtracking matcher does, the greedy alternative first, and gives the length of the
  match.
\<close>

datatype atom = Lit jschar | Space | OneOf "jschar list"

datatype quant = Once | Star | Plus

type_synonym regex = "(atom \<times> quant) list"

fun atom_ok :: "atom \<Rightarrow> jschar \<Rightarrow> bool" where
  "atom_ok (Lit d) c = (c = d)"
| "atom_ok Space c = js_space c"
| "atom_ok (OneOf ds) c = (c \<in> set ds)"

fun re_match :: "regex \<Rightarrow> jsstring \<Rightarrow> nat option" where
  "re_match [] s = Some 0"
| "re_match ((a, Once) # r) [] = None"
| "re_match ((a, Once) # r) (c # cs) =
     (if atom_ok a c then map_option Suc (re_match r cs) else None)"
| "re_match ((a, Star) # r) [] = re_match r []"
| "re_match ((a, Star) # r) (c # cs) =
     (if atom_ok a c
      then (case re_match ((a, Star) # r) cs of
              Some n \<Rightarrow> Some (Suc n)
            | None \<Rightarrow> re_match r (c # cs))
      else re_match r (c # cs))"
| "re_match ((a, Plus) # r) [] = None"
| "re_match ((a, Plus) # r) (c # cs) =
     (if atom_ok a c then map_option Suc (re_match ((a, Star) # r) cs) else None)"

text \<open>\<open>/^.../.test(s)\<close> for a pattern anchored at the start, without flags.\<close>

definition re_test :: "regex \<Rightarrow> jsstring \<Rightarrow> bool" where
  "re_test r s = (re_match r s \<noteq> None)"

text \<open>
  The replacement template of \<open>String.prototype.replace\<close> for a pattern without capture
  groups: \<open>$$\<close> is a dollar sign, \<open>$&\<close> the matched text, \<open>$`\<close> the text before the match,
  \<open>$'\<close> the text after it; every other code unit stands for itself.
\<close>

fun getSubstitution :: "jsstring \<Rightarrow> jsstring \<Rightarrow> jsstring \<Rightarrow> jsstring \<Rightarrow> jsstring" where
  "getSubstitution matched preceding after (c # d # t) =
     (if c = 0x24 \<and> d = 0x24 then 0x24 # getSubstitution matched preceding after t
      else if c = 0x24 \<and> d = 0x26 then matched @ getSubstitution matched preceding after t
      else if c = 0x24 \<and> d = 0x60 then preceding @ getSubstitution matched preceding after t
      else if c = 0x24 \<and> d = 0x27 then after @ getSubstitution matched preceding after t
      else c # getSubstitution matched preceding after (d # t))"
| "getSubstitution matched preceding after t = t"

lemma re_match_le: "re_match r s = Some n \<Longrightarrow> n \<le> length s"
  by (induction r s arbitrary: n rule: re_match.induct)
     (auto split: if_splits option.splits)

text \<open>
  \<open>s.replace(/r/g, template)\<close>: every match, found from left to right, is replaced; a
  search resumes where the last match ended, one code unit further after an empty match.
  \<open>preceding\<close> is the part of the string already passed.
\<close>

function js_replace_from :: "regex \<Rightarrow> jsstring \<Rightarrow> jsstring \<Rightarrow> jsstring \<Rightarrow> jsstring" where
  "js_replace_from r t preceding rest =
     (case re_match r rest of
        None \<Rightarrow>
          (case rest of [] \<Rightarrow> [] | c # cs \<Rightarrow> c # js_replace_from r t (preceding @ [c]) cs)
      | Some n \<Rightarrow>
          getSubstitution (take n rest) preceding (drop n rest) t @
          (if n = 0
           then (case rest of [] \<Rightarrow> [] | c # cs \<Rightarrow> c # js_replace_from r t (preceding @ [c]) cs)
           else js_replace_from r t (preceding @ take n rest) (drop n rest)))"
  by pat_completeness auto
termination
proof (relation "measure (\<lambda>(r, t, preceding, rest). length rest)")
  show "wf (measure (\<lambda>(r, t, preceding, rest). length rest))"
    by simp
next
  fix r t :: jsstring and preceding rest :: jsstring and c cs
  fix re :: regex
  show "re_match re rest = None \<Longrightarrow> rest = c # cs \<Longrightarrow>
      ((re, t, preceding @ [c], cs), re, t, preceding, rest)
        \<in> measure (\<lambda>(r, t, preceding, rest). length rest)"
    by simp
next
  fix re :: regex and t preceding rest :: jsstring and n c cs
  show "re_match re rest = Some n \<Longrightarrow> n = 0 \<Longrightarrow> rest = c # cs \<Longrightarrow>
      ((re, t, preceding @ [c], cs), re, t, preceding, rest)
        \<in> measure (\<lambda>(r, t, preceding, rest). length rest)"
    by simp
next
  fix re :: regex and t preceding rest :: jsstring and n
  assume m: "re_match re rest = Some n" and n: "n \<noteq> 0"
  from re_match_le [OF m] n have "length (drop n rest) < length rest"
    by (cases rest) auto
  then show "((re, t, preceding @ take n rest, drop n rest), re, t, preceding, rest)
        \<in> measure (\<lambda>(r, t, preceding, rest). length rest)"
    by simp
qed

definition js_replace_all :: "jsstring \<Rightarrow> regex \<Rightarrow> jsstring \<Rightarrow> jsstring" where
  "js_replace_all s r t = js_replace_from r t [] s"


section \<open>The executor of \<open>run-skill-code-impl.ts\<close>\<close>

subsection \<open>Splitting the source and expanding the home alias\<close>

text \<open>\<open>/^\s*import\s+/\<close>\<close>

definition import_re :: regex where
  "import_re = (Space, Star) # map (\<lambda>c. (Lit c, Once)) (ascii ''import'') @ [(Space, Plus)]"

text \<open>\<open>/['"]~\//g\<close>: a single or a double quote, a tilde, a slash.\<close>

definition alias_re :: regex where
  "alias_re = [(OneOf [0x27, 0x22], Once), (Lit 0x7E, Once), (Lit 0x2F, Once)]"

text \<open>The replacement template: a single quote, the home directory, a slash.\<close>

definition alias_template :: "jsstring \<Rightarrow> jsstring" where
  "alias_template homeDir = 0x27 # homeDir @ [0x2F]"

definition expandLine :: "jsstring \<Rightarrow> jsstring \<Rightarrow> jsstring" where
  "expandLine homeDir line = js_replace_all line alias_re (alias_template homeDir)"

record parsed_source =
  imports' :: "jsstring list"
  codeLines :: "jsstring list"

text \<open>One round of the loop over the lines: \<open>push\<close> appends to one of the two arrays.\<close>

definition split_step :: "jsstring \<Rightarrow> jsstring \<Rightarrow> parsed_source \<Rightarrow> parsed_source" where
  "split_step homeDir line p =
     (if re_test import_re line
      then p\<lparr>imports' := imports' p @ [expandLine homeDir line]\<rparr>
      else p\<lparr>codeLines := codeLines p @ [line]\<rparr>)"

definition splitSource :: "jsstring \<Rightarrow> jsstring \<Rightarrow> parsed_source" where
  "splitSource homeDir code =
     fold (split_step homeDir) (js_split LF code) \<lparr>imports' = [], codeLines = []\<rparr>"

subsection \<open>The harness text\<close>

definition wrappedCode :: "parsed_source \<Rightarrow> jsstring" where
  "wrappedCode p =
     ascii ''\<newline>'' @ js_join [LF] (imports' p) @
     ascii ''\<newline>\<newline>(async () => {\<newline>  const __result = await (async () => {\<newline>    '' @
     js_join [LF] (codeLines p) @
     ascii ''\<newline>  })();\<newline>\<newline>  console.log('__RETURN_VALUE__:' + JSON.stringify(__result));\<newline>})();\<newline>''"

subsection \<open>Decoding the captured standard output\<close>

datatype js_error = JsError jsstring

definition returnMarker :: jsstring where
  "returnMarker = ascii ''__RETURN_VALUE__:''"

text \<open>
  \<open>JSON.parse\<close> belongs to the runtime and is a parameter: it gives a value or throws.
  \<open>returnValue\<close> is \<open>None\<close> for \<open>undefined\<close>.
\<close>

definition try_parse :: "(jsstring \<Rightarrow> js_error + 'v) \<Rightarrow> jsstring \<Rightarrow> 'v option" where
  "try_parse parse returnJson = (case parse returnJson of Inr v \<Rightarrow> Some v | Inl e \<Rightarrow> None)"

definition decode :: "(jsstring \<Rightarrow> js_error + 'v) \<Rightarrow> jsstring \<Rightarrow> 'v option \<times> jsstring" where
  "decode parse stdout =
     (let returnIndex = indexOf stdout returnMarker
      in if returnIndex \<noteq> - 1
         then
           (let returnLine = js_slice_from stdout (returnIndex + int (length returnMarker));
                returnEnd = indexOf returnLine [LF];
                returnJson = (if returnEnd = - 1 then returnLine else js_slice returnLine 0 returnEnd);
                returnValue = try_parse parse returnJson;
                stdoutClean =
                  js_slice stdout 0 returnIndex @
                  (if returnEnd = - 1 then [] else js_slice_from returnLine (returnEnd + 1))
            in (returnValue, stdoutClean))
         else (None, stdout))"

subsection \<open>The host and the effects of one execution\<close>

record spawn_options =
  cwd :: jsstring
  env :: "jsstring \<rightharpoonup> jsstring"

text \<open>
  A spawned child: what reading its two streams to the end gives, and what awaiting its
  exit gives (the exit code).
\<close>

record child =
  streams :: "js_error + jsstring \<times> jsstring"
  exited :: "js_error + int"

text \<open>
  What the executor reads from its host and the answers of the host to its calls. Every
  call may throw. One execution makes each call at most once, so an answer is given as a
  function of the arguments of the call; the order of the calls is kept in a trace of
  events. \<open>fs_rm\<close> is \<open>fs.rm\<close> with \<open>recursive\<close> and \<open>force\<close> set, and \<open>Bun_spawn\<close> is
  \<open>Bun.spawn\<close> with both streams piped.
\<close>

record 'v host =
  process_env :: "jsstring \<rightharpoonup> jsstring"
  process_cwd :: jsstring
  os_homedir :: jsstring
  os_tmpdir :: jsstring
  path_join :: "jsstring \<Rightarrow> jsstring \<Rightarrow> jsstring"
  fs_mkdtemp :: "jsstring \<Rightarrow> js_error + jsstring"
  fs_writeFile :: "jsstring \<Rightarrow> jsstring \<Rightarrow> js_error + unit"
  fs_rm :: "jsstring \<Rightarrow> js_error + unit"
  Bun_spawn :: "jsstring list \<Rightarrow> spawn_options \<Rightarrow> js_error + child"
  JSON_parse :: "jsstring \<Rightarrow> js_error + 'v"

datatype event =
    Mkdtemp jsstring
  | WriteFile jsstring jsstring
  | Spawn "jsstring list" spawn_options
  | ReadStreams
  | AwaitExit
  | Rm jsstring

record 'v result =
  returnValue :: "'v option"
  stdout :: jsstring
  stderr :: jsstring

text \<open>\<open>process.env.HOME || os.homedir()\<close>: an unset or empty \<open>HOME\<close> falls back.\<close>

definition homeDirOf :: "'v host \<Rightarrow> jsstring" where
  "homeDirOf h =
     (case process_env h (ascii ''HOME'') of
        None \<Rightarrow> os_homedir h
      | Some v \<Rightarrow> if v = [] then os_homedir h else v)"

text \<open>The arguments of the calls, as \<open>execute\<close> builds them.\<close>

definition mkdtemp_prefix :: "'v host \<Rightarrow> jsstring" where
  "mkdtemp_prefix h = path_join h (os_tmpdir h) (ascii ''run-skill-code-'')"

definition tmpFile_of :: "'v host \<Rightarrow> jsstring \<Rightarrow> jsstring" where
  "tmpFile_of h tmpDir = path_join h tmpDir (ascii ''code.ts'')"

definition harness_text :: "'v host \<Rightarrow> jsstring \<Rightarrow> jsstring" where
  "harness_text h code = wrappedCode (splitSource (homeDirOf h) code)"

definition spawn_argv :: "jsstring \<Rightarrow> jsstring list" where
  "spawn_argv tmpFile = [ascii ''bun'', ascii ''run'', tmpFile]"

definition spawn_opts :: "'v host \<Rightarrow> jsstring \<Rightarrow> spawn_options" where
  "spawn_opts h workingDir =
     \<lparr>cwd = workingDir, env = (process_env h)(ascii ''HOME'' \<mapsto> homeDirOf h)\<rparr>"

text \<open>
  The body of the \<open>try\<close> block: its completion (a thrown error or the returned result) and
  the calls it made, in order. The exit code is awaited and not read.
\<close>

definition execute_try ::
    "'v host \<Rightarrow> jsstring \<Rightarrow> jsstring \<Rightarrow> jsstring \<Rightarrow> (js_error + 'v result) \<times> event list" where
  "execute_try h code workingDir tmpFile =
     (let text = harness_text h code;
          argv = spawn_argv tmpFile;
          opts = spawn_opts h workingDir
      in case fs_writeFile h tmpFile text of
           Inl e \<Rightarrow> (Inl e, [WriteFile tmpFile text])
         | Inr u \<Rightarrow>
             (case Bun_spawn h argv opts of
                Inl e \<Rightarrow> (Inl e, [WriteFile tmpFile text, Spawn argv opts])
              | Inr proc \<Rightarrow>
                  (case streams proc of
                     Inl e \<Rightarrow> (Inl e, [WriteFile tmpFile text, Spawn argv opts, ReadStreams])
                   | Inr (out, err) \<Rightarrow>
                       (case exited proc of
                          Inl e \<Rightarrow>
                            (Inl e, [WriteFile tmpFile text, Spawn argv opts, ReadStreams, AwaitExit])
                        | Inr exitCode \<Rightarrow>
                            (let (rv, clean) = decode (JSON_parse h) out
                             in (Inr \<lparr>returnValue = rv, stdout = clean, stderr = err\<rparr>,
                                 [WriteFile tmpFile text, Spawn argv opts, ReadStreams,
                                  AwaitExit]))))))"

text \<open>
  \<open>execute\<close>: the directory is made before the \<open>try\<close>; the \<open>finally\<close> block calls
  \<open>fs.rm\<close> inside a \<open>try\<close> with an empty \<open>catch\<close>, so its answer is dropped.
\<close>

definition execute ::
    "'v host \<Rightarrow> jsstring \<Rightarrow> jsstring \<Rightarrow> (js_error + 'v result) \<times> event list" where
  "execute h code workingDir =
     (case fs_mkdtemp h (mkdtemp_prefix h) of
        Inl e \<Rightarrow> (Inl e, [Mkdtemp (mkdtemp_prefix h)])
      | Inr tmpDir \<Rightarrow>
          (let tmpFile = tmpFile_of h tmpDir;
               (completion, calls) = execute_try h code workingDir tmpFile;
               cleanup = (case fs_rm h tmpDir of Inl e \<Rightarrow> () | Inr u \<Rightarrow> ())
           in (completion, Mkdtemp (mkdtemp_prefix h) # calls @ [Rm tmpDir])))"

definition runSkillCodeImpl ::
    "'v host \<Rightarrow> jsstring \<Rightarrow> jsstring \<Rightarrow> (js_error + 'v result) \<times> event list" where
  "runSkillCodeImpl h code workingDir = execute h code workingDir"

text \<open>\<open>runSkillCode\<close> passes \<open>process.cwd()\<close> as the working directory.\<close>

definition runSkillCode :: "'v host \<Rightarrow> jsstring \<Rightarrow> (js_error + 'v result) \<times> event list" where
  "runSkillCode h code = runSkillCodeImpl h code (process_cwd h)"

text \<open>The calls of one kind in a trace.\<close>

fun rm_calls :: "event list \<Rightarrow> jsstring list" where
  "rm_calls [] = []"
| "rm_calls (Rm d # evs) = d # rm_calls evs"
| "rm_calls (ev # evs) = rm_calls evs"

fun spawn_calls :: "event list \<Rightarrow> (jsstring list \<times> spawn_options) list" where
  "spawn_calls [] = []"
| "spawn_calls (Spawn argv opts # evs) = (argv, opts) # spawn_calls evs"
| "spawn_calls (ev # evs) = spawn_calls evs"

subsection \<open>The harness as a program\<close>

text \<open>
  The fixed part of the harness text is this program:
  \<^verbatim>\<open>
  (async () => {
    const __result = await (async () => { BODY })();
    console.log('__RETURN_VALUE__:' + JSON.stringify(__result));
  })();
  \<close>
  It is embedded with the standard output written so far as the state and a thrown error
  as a value. The submitted body is a parameter: a program that writes and then returns a
  value or throws. \<open>JSON.stringify\<close> is a parameter too: it gives a string, or \<open>undefined\<close>
  (\<open>None\<close>), or throws. Work that the body starts and does not await is not part of this
  sequential model.
\<close>

type_synonym 'a prog = "jsstring \<Rightarrow> (js_error + 'a) \<times> jsstring"

definition console_log :: "jsstring \<Rightarrow> unit prog" where
  "console_log line out = (Inr (), out @ line @ [LF])"

text \<open>\<open>s + x\<close> for a string \<open>s\<close> and an \<open>x\<close> that is a string or \<open>undefined\<close>.\<close>

definition plus_string :: "jsstring \<Rightarrow> jsstring option \<Rightarrow> jsstring" where
  "plus_string s x = s @ (case x of None \<Rightarrow> ascii ''undefined'' | Some t \<Rightarrow> t)"

definition harness_main :: "('v \<Rightarrow> js_error + jsstring option) \<Rightarrow> 'v prog \<Rightarrow> unit prog" where
  "harness_main stringify body out =
     (case body out of
        (Inl e, out1) \<Rightarrow> (Inl e, out1)
      | (Inr result, out1) \<Rightarrow>
          (case stringify result of
             Inl e \<Rightarrow> (Inl e, out1)
           | Inr encoded \<Rightarrow> console_log (plus_string (ascii ''__RETURN_VALUE__:'') encoded) out1))"

text \<open>The standard output of a child that runs the harness around \<open>body\<close>.\<close>

definition harness_stdout :: "('v \<Rightarrow> js_error + jsstring option) \<Rightarrow> 'v prog \<Rightarrow> jsstring" where
  "harness_stdout stringify body = snd (harness_main stringify body [])"


section \<open>The specification's notions\<close>


text \<open>
  For a sentinel token at index \<open>i\<close>: the payload candidate is everything from immediately
  after the token to the next line break, or to the end of the text; what follows the
  payload's line break is kept.
\<close>

definition payload_candidate :: "jsstring \<Rightarrow> nat \<Rightarrow> jsstring" where
  "payload_candidate out i = takeWhile (\<lambda>c. c \<noteq> LF) (drop (i + length returnMarker) out)"

definition after_payload_line :: "jsstring \<Rightarrow> nat \<Rightarrow> jsstring" where
  "after_payload_line out i =
     drop 1 (dropWhile (\<lambda>c. c \<noteq> LF) (drop (i + length returnMarker) out))"

section \<open>A runtime for the examples\<close>

text \<open>
  The theorems below hold for every \<open>JSON.parse\<close> and \<open>JSON.stringify\<close>. The closed
  examples need one: these two follow ECMA-262 on the scalar values, with numbers
  restricted to the safe integers. A text or a value outside this fragment (an array, an
  object, a numeral with a fraction or an exponent, negative zero) is answered with
  \<open>notModelled\<close>; \<open>syntaxError\<close> is given only where \<open>JSON.parse\<close> throws.
\<close>

datatype jsval = Undefined | Null | Boolean bool | Number int | String jsstring | Function

definition syntaxError :: js_error where
  "syntaxError = JsError (ascii ''SyntaxError'')"

definition notModelled :: js_error where
  "notModelled = JsError (ascii ''outside the modelled fragment'')"

definition json_ws :: "jschar \<Rightarrow> bool" where
  "json_ws c = (c = 0x20 \<or> c = 0x09 \<or> c = 0x0A \<or> c = 0x0D)"

definition json_trim :: "jsstring \<Rightarrow> jsstring" where
  "json_trim s = rev (dropWhile json_ws (rev (dropWhile json_ws s)))"

definition is_digit :: "jschar \<Rightarrow> bool" where
  "is_digit c = (0x30 \<le> c \<and> c \<le> 0x39)"

definition hex_val :: "jschar \<Rightarrow> jschar option" where
  "hex_val c =
     (if 0x30 \<le> c \<and> c \<le> 0x39 then Some (c - 0x30)
      else if 0x41 \<le> c \<and> c \<le> 0x46 then Some (c - 0x37)
      else if 0x61 \<le> c \<and> c \<le> 0x66 then Some (c - 0x57)
      else None)"

definition unescape :: "jschar \<Rightarrow> jschar option" where
  "unescape e =
     (if e = 0x22 \<or> e = 0x5C \<or> e = 0x2F then Some e
      else if e = 0x62 then Some 0x08
      else if e = 0x66 then Some 0x0C
      else if e = 0x6E then Some 0x0A
      else if e = 0x72 then Some 0x0D
      else if e = 0x74 then Some 0x09
      else None)"

fun json_string_body :: "jsstring \<Rightarrow> (jsstring \<times> jsstring) option" where
  "json_string_body [] = None"
| "json_string_body (c # cs) =
     (if c = 0x22 then Some ([], cs)
      else if c < 0x20 then None
      else if c = 0x5C then
        (case cs of
           [] \<Rightarrow> None
         | e # r \<Rightarrow>
             if e = 0x75 then
               (case r of
                  a # b # c' # d # r' \<Rightarrow>
                    (case (hex_val a, hex_val b, hex_val c', hex_val d) of
                       (Some x3, Some x2, Some x1, Some x0) \<Rightarrow>
                         map_option (\<lambda>(t, z). ((x3 * 0x1000 + x2 * 0x100 + x1 * 0x10 + x0) # t, z))
                           (json_string_body r')
                     | _ \<Rightarrow> None)
                | _ \<Rightarrow> None)
             else
               (case unescape e of
                  None \<Rightarrow> None
                | Some u \<Rightarrow> map_option (\<lambda>(t, z). (u # t, z)) (json_string_body r)))
      else map_option (\<lambda>(t, z). (c # t, z)) (json_string_body cs))"

definition digits_value :: "jsstring \<Rightarrow> nat" where
  "digits_value ds = foldl (\<lambda>n c. 10 * n + unat (c - 0x30)) 0 ds"

definition json_integer :: "jsstring \<Rightarrow> int option" where
  "json_integer t =
     (let neg = (t \<noteq> [] \<and> hd t = 0x2D);
          ds = (if neg then tl t else t);
          n = digits_value ds
      in if ds = [] \<or> \<not> list_all is_digit ds \<or> (hd ds = 0x30 \<and> length ds > 1)
            \<or> (neg \<and> n = 0) \<or> n > 9007199254740991
         then None
         else Some (if neg then - int n else int n))"

definition json_parse :: "jsstring \<Rightarrow> js_error + jsval" where
  "json_parse text =
     (let t = json_trim text
      in if t = ascii ''null'' then Inr Null
         else if t = ascii ''true'' then Inr (Boolean True)
         else if t = ascii ''false'' then Inr (Boolean False)
         else
           (case t of
              [] \<Rightarrow> Inl syntaxError
            | c # r \<Rightarrow>
                if c = 0x22 then
                  (case json_string_body r of
                     Some (str, []) \<Rightarrow> Inr (String str)
                   | _ \<Rightarrow> Inl syntaxError)
                else if c = 0x5B \<or> c = 0x7B \<or> c = 0x2D \<or> is_digit c then
                  (case json_integer t of
                     Some n \<Rightarrow> Inr (Number n)
                   | None \<Rightarrow> Inl notModelled)
                else Inl syntaxError))"

function nat_digits :: "nat \<Rightarrow> jsstring" where
  "nat_digits n = (if n < 10 then [0x30 + of_nat n] else nat_digits (n div 10) @ [0x30 + of_nat (n mod 10)])"
  by pat_completeness auto
termination
  by (relation "measure id") auto

declare nat_digits.simps [simp del]

definition hex_digit :: "jschar \<Rightarrow> jschar" where
  "hex_digit v = (if v < 10 then 0x30 + v else 0x57 + v)"

definition unicode_escape :: "jschar \<Rightarrow> jsstring" where
  "unicode_escape c =
     [0x5C, 0x75, hex_digit (drop_bit 12 c), hex_digit (take_bit 4 (drop_bit 8 c)),
      hex_digit (take_bit 4 (drop_bit 4 c)), hex_digit (take_bit 4 c)]"

fun quote_body :: "jsstring \<Rightarrow> jsstring" where
  "quote_body [] = []"
| "quote_body (c # cs) =
     (if c = 0x08 then 0x5C # 0x62 # quote_body cs
      else if c = 0x09 then 0x5C # 0x74 # quote_body cs
      else if c = 0x0A then 0x5C # 0x6E # quote_body cs
      else if c = 0x0C then 0x5C # 0x66 # quote_body cs
      else if c = 0x0D then 0x5C # 0x72 # quote_body cs
      else if c = 0x22 then 0x5C # 0x22 # quote_body cs
      else if c = 0x5C then 0x5C # 0x5C # quote_body cs
      else if c < 0x20 then unicode_escape c @ quote_body cs
      else if 0xD800 \<le> c \<and> c \<le> 0xDBFF then
        (case cs of
           d # r \<Rightarrow>
             if 0xDC00 \<le> d \<and> d \<le> 0xDFFF then c # d # quote_body r
             else unicode_escape c @ quote_body cs
         | [] \<Rightarrow> unicode_escape c)
      else if 0xDC00 \<le> c \<and> c \<le> 0xDFFF then unicode_escape c @ quote_body cs
      else c # quote_body cs)"

fun json_stringify :: "jsval \<Rightarrow> js_error + jsstring option" where
  "json_stringify Undefined = Inr None"
| "json_stringify Function = Inr None"
| "json_stringify Null = Inr (Some (ascii ''null''))"
| "json_stringify (Boolean b) = Inr (Some (if b then ascii ''true'' else ascii ''false''))"
| "json_stringify (Number n) =
     (if \<bar>n\<bar> \<le> 9007199254740991
      then Inr (Some (if n < 0 then 0x2D # nat_digits (nat (- n)) else nat_digits (nat n)))
      else Inl notModelled)"
| "json_stringify (String s) = Inr (Some (0x22 # quote_body s @ [0x22]))"

text \<open>
  A host for the examples: \<open>made\<close> is the answer to \<open>fs.mkdtemp\<close>, \<open>spawned\<close> the answer
  to \<open>Bun.spawn\<close>; writing the file succeeds and removing the directory fails.
\<close>

definition example_host :: "(js_error + jsstring) \<Rightarrow> (js_error + child) \<Rightarrow> jsval host" where
  "example_host made spawned =
     \<lparr>process_env = [ascii ''HOME'' \<mapsto> ascii ''/home/u'', ascii ''PATH'' \<mapsto> ascii ''/bin''],
      process_cwd = ascii ''/proj'',
      os_homedir = ascii ''/root'',
      os_tmpdir = ascii ''/tmp'',
      path_join = (\<lambda>a b. a @ ascii ''/'' @ b),
      fs_mkdtemp = (\<lambda>prefix. made),
      fs_writeFile = (\<lambda>file content. Inr ()),
      fs_rm = (\<lambda>dir. Inl (JsError (ascii ''EPERM''))),
      Bun_spawn = (\<lambda>argv opts. spawned),
      JSON_parse = json_parse\<rparr>"

definition example_dir :: jsstring where
  "example_dir = ascii ''/tmp/run-skill-code-Ab12''"

text \<open>\<open>spawn ENOENT\<close>, \<open>mkdtemp EACCES\<close>.\<close>

definition ENOENT :: js_error where
  "ENOENT = JsError (ascii ''ENOENT'')"





definition silent_body :: "jsval prog" where
  "silent_body out = (Inr Undefined, snd (console_log (ascii ''hello'') out))"

definition decoy_silent_body :: "jsval prog" where
  "decoy_silent_body out = (Inr Undefined, snd (console_log (ascii ''__RETURN_VALUE__:1'') out))"


section \<open>The splitter\<close>












lemma js_split_acc_no_sep:
  "sep \<notin> set cur \<Longrightarrow> list_all (\<lambda>l. sep \<notin> set l) (js_split_acc sep cur s)"
  by (induction s arbitrary: cur) auto


lemma js_split_no_LF: "list_all (\<lambda>l. LF \<notin> set l) (js_split LF code)"
  by (simp add: js_split_def js_split_acc_no_sep)


section \<open>The alias expander\<close>

text \<open>
  C2. The expander answers an alias in single quotes as claimed. For an alias in double
  quotes the claim fails: the pattern matches the double quote, and the template puts a
  single quote in its place, so the import opens with a single quote and still closes with
  the double quote. The third equation is the same line going through the splitter.
\<close>

theorem expandLine_double_quote:
  \<open>expandLine (ascii ''/home/u'') (ascii ''import { x } from '~/a.js';'')
     = ascii ''import { x } from '/home/u/a.js';'' \<and>
   expandLine (ascii ''/home/u'') (ascii ''import { x } from "~/a.js";'')
     = ascii ''import { x } from '/home/u/a.js";'' \<and>
   splitSource (ascii ''/home/u'') (ascii ''import { x } from "~/a.js";\<newline>return typeof x;'')
     = \<lparr>imports' = [ascii ''import { x } from '/home/u/a.js";''],
        codeLines = [ascii ''return typeof x;'']\<rparr>\<close>
  by (simp add: splitSource_def js_split_def split_step_def re_test_def import_re_def
      expandLine_def js_replace_all_def alias_re_def alias_template_def ascii_def LF_def
      js_space_def)

section \<open>The decoder\<close>

lemma indexOf_from_cases:
  "(indexOf_from k n s = - 1 \<and> (\<forall>j\<le>length s. \<not> prefix n (drop j s))) \<or>
   (\<exists>i\<le>length s. indexOf_from k n s = int (k + i) \<and> prefix n (drop i s) \<and>
      (\<forall>j<i. \<not> prefix n (drop j s)))"
proof (induction s arbitrary: k)
  case Nil
  then show ?case by auto
next
  case (Cons c cs)
  show ?case
  proof (cases "prefix n (c # cs)")
    case True
    then have "indexOf_from k n (c # cs) = int (k + 0) \<and> prefix n (drop 0 (c # cs)) \<and>
      (\<forall>j<0. \<not> prefix n (drop j (c # cs)))" by simp
    then show ?thesis by blast
  next
    case False
    from Cons [of "Suc k"] show ?thesis
    proof
      assume a: "indexOf_from (Suc k) n cs = - 1 \<and> (\<forall>j\<le>length cs. \<not> prefix n (drop j cs))"
      have "\<forall>j\<le>length (c # cs). \<not> prefix n (drop j (c # cs))"
      proof (intro allI impI)
        fix j assume "j \<le> length (c # cs)"
        then show "\<not> prefix n (drop j (c # cs))"
          using a False by (cases j) auto
      qed
      with a False show ?thesis by simp
    next
      assume "\<exists>i\<le>length cs. indexOf_from (Suc k) n cs = int (Suc k + i) \<and> prefix n (drop i cs) \<and>
        (\<forall>j<i. \<not> prefix n (drop j cs))"
      then obtain i where i: "i \<le> length cs" "indexOf_from (Suc k) n cs = int (Suc k + i)"
        "prefix n (drop i cs)" "\<forall>j<i. \<not> prefix n (drop j cs)" by blast
      have "\<forall>j<Suc i. \<not> prefix n (drop j (c # cs))"
      proof (intro allI impI)
        fix j assume "j < Suc i"
        then show "\<not> prefix n (drop j (c # cs))"
          using i(4) False by (cases j) auto
      qed
      with i False have "Suc i \<le> length (c # cs) \<and> indexOf_from k n (c # cs) = int (k + Suc i) \<and>
        prefix n (drop (Suc i) (c # cs)) \<and> (\<forall>j<Suc i. \<not> prefix n (drop j (c # cs)))"
        by simp
      then show ?thesis by blast
    qed
  qed
qed

lemma indexOf_found:
  assumes "indexOf s n = int i"
  shows "i \<le> length s \<and> prefix n (drop i s) \<and> (\<forall>j<i. \<not> prefix n (drop j s))"
  using indexOf_from_cases [of 0 n s] assms unfolding indexOf_def by auto

lemma indexOf_absent:
  assumes "indexOf s n = - 1"
  shows "\<not> prefix n (drop j s)"
proof (cases "j \<le> length s")
  case True
  then show ?thesis
    using indexOf_from_cases [of 0 n s] assms unfolding indexOf_def by auto
next
  case False
  then have "drop j s = drop (length s) s" by simp
  moreover have "\<not> prefix n (drop (length s) s)"
    using indexOf_from_cases [of 0 n s] assms unfolding indexOf_def by auto
  ultimately show ?thesis by simp
qed

lemma indexOf_range: "indexOf s n = - 1 \<or> (\<exists>i. indexOf s n = int i)"
  using indexOf_from_cases [of 0 n s] unfolding indexOf_def by auto

lemma indexOf_first:
  assumes "i \<le> length s" "prefix n (drop i s)" "\<forall>j<i. \<not> prefix n (drop j s)"
  shows "indexOf s n = int i"
proof -
  from indexOf_range [of s n] show ?thesis
  proof
    assume "indexOf s n = - 1"
    from indexOf_absent [OF this, of i] assms(2) show ?thesis by simp
  next
    assume "\<exists>k. indexOf s n = int k"
    then obtain k where k: "indexOf s n = int k" by blast
    from indexOf_found [OF k] have k': "prefix n (drop k s)" "\<forall>j<k. \<not> prefix n (drop j s)" by auto
    have "k = i"
    proof (rule ccontr)
      assume "k \<noteq> i"
      then consider "k < i" | "i < k" by linarith
      then show False using assms k' by cases auto
    qed
    with k show ?thesis by simp
  qed
qed

lemma indexOf_from_char:
  "indexOf_from k [c] s =
     (if c \<in> set s then int (k + length (takeWhile (\<lambda>x. x \<noteq> c) s)) else - 1)"
  by (induction s arbitrary: k) auto

lemma indexOf_char:
  "indexOf s [c] = (if c \<in> set s then int (length (takeWhile (\<lambda>x. x \<noteq> c) s)) else - 1)"
  by (simp add: indexOf_def indexOf_from_char)

lemma js_slice_from_nat: "js_slice_from s (int i) = drop i s"
  by (simp add: js_slice_from_def slice_index_def min_def)

lemma js_slice_0_nat: "js_slice s 0 (int i) = take i s"
  by (simp add: js_slice_def slice_index_def min_def)

lemma returnMarker_length: "length returnMarker = 17"
  by (simp add: returnMarker_def ascii_def)

lemma decode_found:
  assumes "indexOf out returnMarker = int i"
  shows "decode parse out =
           (try_parse parse (payload_candidate out i), take i out @ after_payload_line out i)"
proof -
  let ?line = "drop (i + length returnMarker) out"
  have line: "js_slice_from out (int i + int (length returnMarker)) = ?line"
    using js_slice_from_nat [of out "i + length returnMarker"] by simp
  show ?thesis
  proof (cases "LF \<in> set ?line")
    case True
    let ?e = "length (takeWhile (\<lambda>x. x \<noteq> LF) ?line)"
    have e: "indexOf ?line [LF] = int ?e"
      using True by (simp add: indexOf_char)
    have "js_slice_from ?line (int ?e + 1) = drop (Suc ?e) ?line"
      using js_slice_from_nat [of ?line "Suc ?e"] by (simp add: add.commute)
    also have "\<dots> = drop 1 (dropWhile (\<lambda>x. x \<noteq> LF) ?line)"
      by (simp add: dropWhile_eq_drop)
    finally have rest: "js_slice_from ?line (int ?e + 1) = after_payload_line out i"
      by (simp add: after_payload_line_def)
    have json: "js_slice ?line 0 (int ?e) = payload_candidate out i"
      by (simp add: js_slice_0_nat payload_candidate_def takeWhile_eq_take [symmetric])
    show ?thesis
      unfolding decode_def Let_def assms line e
      using rest json by (simp add: js_slice_0_nat)
  next
    case False
    then have e: "indexOf ?line [LF] = - 1"
      by (simp add: indexOf_char)
    from False have tw: "takeWhile (\<lambda>x. x \<noteq> LF) ?line = ?line"
      by (metis (mono_tags, lifting) takeWhile_eq_all_conv)
    from False have dw: "dropWhile (\<lambda>x. x \<noteq> LF) ?line = []"
      by (metis (mono_tags, lifting) dropWhile_eq_Nil_conv)
    show ?thesis
      unfolding decode_def Let_def assms line e
      by (simp add: js_slice_0_nat payload_candidate_def after_payload_line_def tw dw)
  qed
qed

lemma decode_absent:
  assumes "indexOf out returnMarker = - 1"
  shows "decode parse out = (None, out)"
  using assms by (simp add: decode_def)


lemma decode_split:
  assumes "indexOf out returnMarker = int i"
  shows "out = take i out @ returnMarker @ payload_candidate out i @
           dropWhile (\<lambda>c. c \<noteq> LF) (drop (i + length returnMarker) out)"
proof -
  from indexOf_found [OF assms] have "prefix returnMarker (drop i out)" by simp
  then obtain zs where zs: "drop i out = returnMarker @ zs"
    by (auto simp: prefix_def)
  then have "drop (length returnMarker) (drop i out) = zs" by simp
  then have "drop (i + length returnMarker) out = zs" by (simp add: add.commute)
  then have "out = take i out @ returnMarker @ drop (i + length returnMarker) out"
    using zs by (metis append_take_drop_id)
  then show ?thesis
    unfolding payload_candidate_def by (metis takeWhile_dropWhile_id)
qed

text \<open>
  C5. When the sentinel token occurs in the raw standard output, the decoder takes its
  first occurrence, at index \<open>i\<close>: the token stands there and at no earlier index. The
  text is what precedes the token, the token, the payload candidate (everything up to the
  next line break, or to the end) and the rest; the payload candidate is what is handed to
  the parser, and the cleaned output is the text before the token followed by the text
  after the payload's line break.
\<close>

theorem decode_first_sentinel:
  assumes "indexOf out returnMarker = int i"
  shows "prefix returnMarker (drop i out) \<and> (\<forall>j<i. \<not> prefix returnMarker (drop j out)) \<and>
         out = take i out @ returnMarker @ payload_candidate out i @
                 dropWhile (\<lambda>c. c \<noteq> LF) (drop (i + length returnMarker) out) \<and>
         decode parse out =
           (try_parse parse (payload_candidate out i), take i out @ after_payload_line out i)"
  using indexOf_found [OF assms] decode_split [OF assms] decode_found [OF assms] by blast

theorem decode_first_sentinel_witness:
  "indexOf (ascii ''ab__RETURN_VALUE__:1\<newline>cd\<newline>__RETURN_VALUE__:2\<newline>'') returnMarker = int 2 \<and>
   decode json_parse (ascii ''ab__RETURN_VALUE__:1\<newline>cd\<newline>__RETURN_VALUE__:2\<newline>'') =
     (Some (Number 1), ascii ''abcd\<newline>__RETURN_VALUE__:2\<newline>'')"
proof -
  have h: "indexOf (ascii ''ab__RETURN_VALUE__:1\<newline>cd\<newline>__RETURN_VALUE__:2\<newline>'') returnMarker = int 2"
    by (simp add: indexOf_def returnMarker_def ascii_def)
  have p: "json_parse (ascii ''1'') = Inr (Number 1)"
    by (simp add: json_parse_def ascii_def json_trim_def json_ws_def is_digit_def
        json_integer_def digits_value_def)
  from decode_first_sentinel [OF h, of json_parse] p h show ?thesis
    by (simp add: payload_candidate_def after_payload_line_def try_parse_def returnMarker_def
        ascii_def LF_def)
qed

text \<open>
  C6. The decoder always gives a result. The token is absent or it has a first index; when
  it is absent the value is \<open>undefined\<close> and the output is returned as it is; when the
  parser throws on the payload candidate the value is \<open>undefined\<close> and the sentinel line
  is still cut out.
\<close>

theorem decode_never_fails:
  "(indexOf out returnMarker = - 1 \<or> (\<exists>k. indexOf out returnMarker = int k)) \<and>
   (indexOf out returnMarker = - 1 \<longrightarrow> decode parse out = (None, out)) \<and>
   (indexOf out returnMarker = int i \<and> parse (payload_candidate out i) = Inl e \<longrightarrow>
      decode parse out = (None, take i out @ after_payload_line out i))"
  using indexOf_range [of out returnMarker] decode_absent [of out parse]
    decode_found [of out i parse]
  by (auto simp: try_parse_def)

theorem decode_never_fails_witness:
  "indexOf (ascii ''hello\<newline>'') returnMarker = - 1 \<and>
   decode json_parse (ascii ''hello\<newline>'') = (None, ascii ''hello\<newline>'') \<and>
   indexOf (ascii ''x\<newline>__RETURN_VALUE__:undefined\<newline>y'') returnMarker = int 2 \<and>
   json_parse (payload_candidate (ascii ''x\<newline>__RETURN_VALUE__:undefined\<newline>y'') 2) = Inl syntaxError \<and>
   decode json_parse (ascii ''x\<newline>__RETURN_VALUE__:undefined\<newline>y'') = (None, ascii ''x\<newline>y'')"
proof -
  have a: "indexOf (ascii ''hello\<newline>'') returnMarker = - 1"
    by (simp add: indexOf_def returnMarker_def ascii_def)
  have b: "indexOf (ascii ''x\<newline>__RETURN_VALUE__:undefined\<newline>y'') returnMarker = int 2"
    by (simp add: indexOf_def returnMarker_def ascii_def)
  have c: "json_parse (payload_candidate (ascii ''x\<newline>__RETURN_VALUE__:undefined\<newline>y'') 2) = Inl syntaxError"
    by (simp add: payload_candidate_def returnMarker_def ascii_def LF_def
        json_parse_def json_trim_def json_ws_def is_digit_def)
  from decode_never_fails [of "ascii ''hello\<newline>''" json_parse]
    decode_never_fails [of "ascii ''x\<newline>__RETURN_VALUE__:undefined\<newline>y''" json_parse 2 syntaxError]
    a b c
  show ?thesis
    by (simp add: after_payload_line_def returnMarker_def ascii_def LF_def)
qed


section \<open>The executor\<close>

lemma rm_calls_append: "rm_calls (xs @ ys) = rm_calls xs @ rm_calls ys"
  by (induction xs rule: rm_calls.induct) auto

lemma spawn_calls_append: "spawn_calls (xs @ ys) = spawn_calls xs @ spawn_calls ys"
  by (induction xs rule: spawn_calls.induct) auto

lemma execute_try_no_rm: "rm_calls (snd (execute_try h code wd f)) = []"
  by (simp add: execute_try_def Let_def split: sum.splits prod.splits)

lemma execute_created:
  assumes "fs_mkdtemp h (mkdtemp_prefix h) = Inr tmpDir"
  shows "execute h code wd =
           (fst (execute_try h code wd (tmpFile_of h tmpDir)),
            Mkdtemp (mkdtemp_prefix h) # snd (execute_try h code wd (tmpFile_of h tmpDir)) @ [Rm tmpDir])"
  using assms by (simp add: execute_def Let_def split: prod.splits)

lemma homeDirOf_fs_rm: "homeDirOf (h\<lparr>fs_rm := rm\<rparr>) = homeDirOf h"
  by (simp add: homeDirOf_def split: option.splits)

lemma execute_try_fs_rm: "execute_try (h\<lparr>fs_rm := rm\<rparr>) code wd f = execute_try h code wd f"
  by (simp add: execute_try_def harness_text_def homeDirOf_fs_rm spawn_opts_def Let_def
      cong: sum.case_cong)

text \<open>
  C7. Once the directory has been made, whatever the rest of the execution does (the file
  is not written, the process is not started, a stream or the exit cannot be read, the
  payload does not parse, or all goes well), the last call is the removal of that
  directory and it is the only removal; the completion of \<open>execute\<close> is the completion of
  its \<open>try\<close> block, and it is the same whatever the removal answers, so an error of the
  removal never shows.
\<close>

theorem execute_always_cleans_up:
  assumes "fs_mkdtemp h (mkdtemp_prefix h) = Inr tmpDir"
  shows "last (snd (execute h code wd)) = Rm tmpDir \<and>
         rm_calls (snd (execute h code wd)) = [tmpDir] \<and>
         fst (execute h code wd) = fst (execute_try h code wd (tmpFile_of h tmpDir)) \<and>
         fst (execute (h\<lparr>fs_rm := rm\<rparr>) code wd) = fst (execute h code wd)"
proof -
  have "fs_mkdtemp (h\<lparr>fs_rm := rm\<rparr>) (mkdtemp_prefix (h\<lparr>fs_rm := rm\<rparr>)) = Inr tmpDir"
    using assms by (simp add: mkdtemp_prefix_def)
  from execute_created [OF this, of code wd] execute_created [OF assms, of code wd]
  show ?thesis
    by (simp add: rm_calls_append execute_try_no_rm execute_try_fs_rm tmpFile_of_def)
qed

text \<open>
  The process cannot be started and the removal fails too: the caller gets the error of
  the start.
\<close>

theorem execute_always_cleans_up_witness:
  "fs_mkdtemp (example_host (Inr example_dir) (Inl ENOENT))
     (mkdtemp_prefix (example_host (Inr example_dir) (Inl ENOENT))) = Inr example_dir \<and>
   fs_rm (example_host (Inr example_dir) (Inl ENOENT)) example_dir = Inl (JsError (ascii ''EPERM'')) \<and>
   last (snd (execute (example_host (Inr example_dir) (Inl ENOENT)) (ascii ''return 42;'')
     (ascii ''/proj''))) = Rm example_dir \<and>
   rm_calls (snd (execute (example_host (Inr example_dir) (Inl ENOENT)) (ascii ''return 42;'')
     (ascii ''/proj''))) = [example_dir] \<and>
   fst (execute (example_host (Inr example_dir) (Inl ENOENT)) (ascii ''return 42;'')
     (ascii ''/proj'')) = Inl ENOENT"
proof -
  let ?h = "example_host (Inr example_dir) (Inl ENOENT)"
  have m: "fs_mkdtemp ?h (mkdtemp_prefix ?h) = Inr example_dir"
    by (simp add: example_host_def)
  have r: "fs_rm ?h example_dir = Inl (JsError (ascii ''EPERM''))"
    by (simp add: example_host_def)
  have t: "fst (execute_try ?h (ascii ''return 42;'') (ascii ''/proj'') (tmpFile_of ?h example_dir))
      = Inl ENOENT"
    by (simp add: execute_try_def example_host_def Let_def)
  from execute_always_cleans_up [OF m, of "ascii ''return 42;''" "ascii ''/proj''" "fs_rm ?h"] m r t
  show ?thesis by simp
qed

lemma execute_try_spawned:
  assumes "fs_writeFile h f (harness_text h code) = Inr u"
  shows "execute_try h code wd f =
     (case Bun_spawn h (spawn_argv f) (spawn_opts h wd) of
        Inl e \<Rightarrow> (Inl e, [WriteFile f (harness_text h code), Spawn (spawn_argv f) (spawn_opts h wd)])
      | Inr proc \<Rightarrow>
          (case streams proc of
             Inl e \<Rightarrow>
               (Inl e, [WriteFile f (harness_text h code), Spawn (spawn_argv f) (spawn_opts h wd),
                        ReadStreams])
           | Inr (out, err) \<Rightarrow>
               (case exited proc of
                  Inl e \<Rightarrow>
                    (Inl e, [WriteFile f (harness_text h code),
                             Spawn (spawn_argv f) (spawn_opts h wd), ReadStreams, AwaitExit])
                | Inr exitCode \<Rightarrow>
                    (Inr \<lparr>returnValue = fst (decode (JSON_parse h) out),
                          stdout = snd (decode (JSON_parse h) out), stderr = err\<rparr>,
                     [WriteFile f (harness_text h code), Spawn (spawn_argv f) (spawn_opts h wd),
                      ReadStreams, AwaitExit]))))"
  using assms
  by (simp add: execute_try_def Let_def split: sum.splits prod.splits)




lemma homeDirOf_cases:
  "(process_env h (ascii ''HOME'') = None \<longrightarrow> homeDirOf h = os_homedir h) \<and>
   (process_env h (ascii ''HOME'') = Some [] \<longrightarrow> homeDirOf h = os_homedir h) \<and>
   (process_env h (ascii ''HOME'') = Some v \<and> v \<noteq> [] \<longrightarrow> homeDirOf h = v)"
  by (simp add: homeDirOf_def)

text \<open>
  C9. When the directory is made and the file written, the one process started is
  \<open>bun run\<close> on the harness file, with the working directory the caller gave, which for
  \<open>runSkillCode\<close> is the working directory of the host, and with the environment of the
  host except for \<open>HOME\<close>, which is set: to the host's \<open>HOME\<close> when that is set and
  not empty, to the home directory the platform reports when it is unset.
\<close>

theorem spawn_cwd_and_env:
  assumes "fs_mkdtemp h (mkdtemp_prefix h) = Inr d"
    and "fs_writeFile h (tmpFile_of h d) (harness_text h code) = Inr u"
  shows "spawn_calls (snd (execute h code wd)) = [(spawn_argv (tmpFile_of h d), spawn_opts h wd)] \<and>
         cwd (spawn_opts h wd) = wd \<and>
         env (spawn_opts h wd) (ascii ''HOME'') = Some (homeDirOf h) \<and>
         (k \<noteq> ascii ''HOME'' \<longrightarrow> env (spawn_opts h wd) k = process_env h k) \<and>
         (process_env h (ascii ''HOME'') = None \<longrightarrow> homeDirOf h = os_homedir h) \<and>
         (process_env h (ascii ''HOME'') = Some v \<and> v \<noteq> [] \<longrightarrow> homeDirOf h = v) \<and>
         runSkillCode h code = execute h code (process_cwd h)"
proof -
  have "spawn_calls (snd (execute_try h code wd (tmpFile_of h d))) =
      [(spawn_argv (tmpFile_of h d), spawn_opts h wd)]"
    by (simp add: execute_try_spawned [OF assms(2)] split: sum.splits prod.splits)
  then have "spawn_calls (snd (execute h code wd)) =
      [(spawn_argv (tmpFile_of h d), spawn_opts h wd)]"
    by (simp add: execute_created [OF assms(1)] spawn_calls_append)
  then show ?thesis
    using homeDirOf_cases [of h v]
    by (simp add: spawn_opts_def runSkillCode_def runSkillCodeImpl_def)
qed

theorem spawn_cwd_and_env_witness:
  "fs_mkdtemp (example_host (Inr example_dir) (Inl ENOENT))
     (mkdtemp_prefix (example_host (Inr example_dir) (Inl ENOENT))) = Inr example_dir \<and>
   process_env (example_host (Inr example_dir) (Inl ENOENT)) (ascii ''HOME'') = Some (ascii ''/home/u'') \<and>
   spawn_calls (snd (runSkillCode (example_host (Inr example_dir) (Inl ENOENT)) (ascii ''return 42;''))) =
     [([ascii ''bun'', ascii ''run'', ascii ''/tmp/run-skill-code-Ab12/code.ts''],
       spawn_opts (example_host (Inr example_dir) (Inl ENOENT)) (ascii ''/proj''))] \<and>
   cwd (spawn_opts (example_host (Inr example_dir) (Inl ENOENT)) (ascii ''/proj'')) = ascii ''/proj'' \<and>
   env (spawn_opts (example_host (Inr example_dir) (Inl ENOENT)) (ascii ''/proj'')) (ascii ''HOME'') =
     Some (ascii ''/home/u'') \<and>
   env (spawn_opts (example_host (Inr example_dir) (Inl ENOENT)) (ascii ''/proj'')) (ascii ''PATH'') =
     Some (ascii ''/bin'') \<and>
   env (spawn_opts ((example_host (Inr example_dir) (Inl ENOENT))\<lparr>process_env := Map.empty\<rparr>)
     (ascii ''/proj'')) (ascii ''HOME'') = Some (ascii ''/root'') \<and>
   cwd (spawn_opts (example_host (Inr example_dir) (Inl ENOENT)) (ascii ''/proj'')) \<noteq> example_dir"
proof -
  let ?h = "example_host (Inr example_dir) (Inl ENOENT)"
  let ?g = "?h\<lparr>process_env := Map.empty\<rparr>"
  let ?code = "ascii ''return 42;''"
  have m: "fs_mkdtemp ?h (mkdtemp_prefix ?h) = Inr example_dir"
    by (simp add: example_host_def)
  have w: "fs_writeFile ?h (tmpFile_of ?h example_dir) (harness_text ?h ?code) = Inr ()"
    by (simp add: example_host_def)
  have mg: "fs_mkdtemp ?g (mkdtemp_prefix ?g) = Inr example_dir"
    by (simp add: example_host_def)
  have wg: "fs_writeFile ?g (tmpFile_of ?g example_dir) (harness_text ?g ?code) = Inr ()"
    by (simp add: example_host_def)
  have e: "process_env ?h (ascii ''HOME'') = Some (ascii ''/home/u'')"
    by (simp add: example_host_def ascii_def)
  have eg: "process_env ?g (ascii ''HOME'') = None" "os_homedir ?g = ascii ''/root''"
    by (simp_all add: example_host_def)
  have ep: "process_env ?h (ascii ''PATH'') = Some (ascii ''/bin'')" "ascii ''PATH'' \<noteq> ascii ''HOME''"
    by (simp_all add: example_host_def ascii_def)
  have ne: "ascii ''/home/u'' \<noteq> []" by (simp add: ascii_def)
  have c: "process_cwd ?h = ascii ''/proj''" by (simp add: example_host_def)
  have f: "spawn_argv (tmpFile_of ?h example_dir) =
      [ascii ''bun'', ascii ''run'', ascii ''/tmp/run-skill-code-Ab12/code.ts'']"
    by (simp add: spawn_argv_def tmpFile_of_def example_host_def example_dir_def ascii_def)
  have d: "ascii ''/proj'' \<noteq> example_dir"
    by (simp add: example_dir_def ascii_def)
  from spawn_cwd_and_env [OF m w, of "ascii ''/proj''" "ascii ''PATH''" "ascii ''/home/u''"]
    spawn_cwd_and_env [OF mg wg, of "ascii ''/proj''" "ascii ''PATH''" "[]"]
    m e eg ep ne c f d
  show ?thesis by simp
qed

section \<open>The harness\<close>


lemma harness_main_returns:
  assumes "body out = (Inr v, out1)" "stringify v = Inr encoded"
  shows "harness_main stringify body out =
           (Inr (), out1 @ returnMarker @ (case encoded of None \<Rightarrow> ascii ''undefined'' | Some t \<Rightarrow> t) @ [LF])"
  using assms by (simp add: harness_main_def console_log_def plus_string_def returnMarker_def)





lemma returnMarker_colon:
  "returnMarker ! 16 = 0x3A" "0x3A \<notin> set (take 16 returnMarker)"
  by (simp_all add: returnMarker_def ascii_def)

lemma marker_no_overlap:
  assumes none: "indexOf logs returnMarker = - 1" and j: "j < length logs"
  shows "\<not> prefix returnMarker (drop j (logs @ returnMarker @ rest))"
proof
  define u where "u = drop j logs"
  assume "prefix returnMarker (drop j (logs @ returnMarker @ rest))"
  with j have "prefix returnMarker (u @ returnMarker @ rest)" by (simp add: u_def)
  then obtain zs where zs: "u @ returnMarker @ rest = returnMarker @ zs"
    by (auto simp: prefix_def)
  from j have u: "u \<noteq> []" by (simp add: u_def)
  from indexOf_absent [OF none] have nu: "\<not> prefix returnMarker u" by (simp add: u_def)
  show False
  proof (cases "17 \<le> length u")
    case True
    from zs have "take 17 (u @ returnMarker @ rest) = returnMarker"
      by (simp add: returnMarker_length)
    with True have "take 17 u = returnMarker" by simp
    then have "prefix returnMarker u"
      by (metis take_is_prefix)
    with nu show False ..
  next
    case False
    define i where "i = 16 - length u"
    from False u have i: "i < 16" "length u \<le> 16" "16 - length u = i"
      by (simp_all add: i_def)
    have "(u @ returnMarker @ rest) ! 16 = (returnMarker @ rest) ! i"
      using i by (simp add: nth_append)
    also have "\<dots> = returnMarker ! i"
      using i by (simp add: nth_append returnMarker_length)
    finally have "(u @ returnMarker @ rest) ! 16 = returnMarker ! i" .
    moreover have "(returnMarker @ zs) ! 16 = returnMarker ! 16"
      by (simp add: nth_append returnMarker_length)
    ultimately have c: "returnMarker ! i = 0x3A"
      using zs returnMarker_colon(1) by simp
    have "i < length (take 16 returnMarker)"
      using i by (simp add: returnMarker_length)
    from nth_mem [OF this] i have "returnMarker ! i \<in> set (take 16 returnMarker)"
      by simp
    with c returnMarker_colon(2) show False by simp
  qed
qed

lemma indexOf_harness_line:
  assumes "indexOf logs returnMarker = - 1"
  shows "indexOf (logs @ returnMarker @ rest) returnMarker = int (length logs)"
proof (rule indexOf_first)
  show "length logs \<le> length (logs @ returnMarker @ rest)" by simp
  show "prefix returnMarker (drop (length logs) (logs @ returnMarker @ rest))" by simp
  show "\<forall>j<length logs. \<not> prefix returnMarker (drop j (logs @ returnMarker @ rest))"
    using marker_no_overlap [OF assms] by blast
qed

lemma decode_harness_line:
  assumes "indexOf logs returnMarker = - 1" and "LF \<notin> set payload"
  shows "decode parse (logs @ returnMarker @ payload @ [LF]) = (try_parse parse payload, logs)"
proof -
  have tw: "takeWhile (\<lambda>c. c \<noteq> LF) (payload @ [LF]) = payload"
    using assms(2) by (induction payload) auto
  have dw: "dropWhile (\<lambda>c. c \<noteq> LF) (payload @ [LF]) = [LF]"
    using assms(2) by (induction payload) auto
  from decode_found [OF indexOf_harness_line [OF assms(1), of "payload @ [LF]"], of parse]
  show ?thesis
    by (simp add: payload_candidate_def after_payload_line_def tw dw)
qed


lemma harness_stdout_returns:
  assumes "body [] = (Inr v, logs)" "stringify v = Inr encoded"
  shows "harness_stdout stringify body =
           logs @ returnMarker @ (case encoded of None \<Rightarrow> ascii ''undefined'' | Some t \<Rightarrow> t) @ [LF]"
  using harness_main_returns [of body "[]" v logs stringify encoded] assms
  by (simp add: harness_stdout_def)





text \<open>
  C10, amended. A body that returns a value for which \<open>JSON.stringify\<close> gives
  \<open>undefined\<close> (no \<open>return\<close>, or a function), and whose own output holds no sentinel
  token: the harness prints the token followed by the text \<open>undefined\<close>, on which
  \<open>JSON.parse\<close> throws; the decoded value is \<open>undefined\<close> and the sentinel line is cut out
  of the cleaned output.
\<close>

theorem undefined_result_decoded:
  assumes "body [] = (Inr v, logs)"
    and "stringify v = Inr None"
    and "parse (ascii ''undefined'') = Inl e"
    and "indexOf logs returnMarker = - 1"
  shows "harness_stdout stringify body = logs @ returnMarker @ ascii ''undefined'' @ [LF] \<and>
         decode parse (harness_stdout stringify body) = (None, logs)"
proof -
  have l: "LF \<notin> set (ascii ''undefined'')"
    by (simp add: ascii_def LF_def)
  from harness_stdout_returns [of body v logs stringify None] assms(1,2,3)
    decode_harness_line [OF assms(4) l, of parse]
  show ?thesis by (simp add: try_parse_def)
qed

theorem undefined_result_decoded_witness:
  "silent_body [] = (Inr Undefined, ascii ''hello\<newline>'') \<and>
   json_stringify Undefined = Inr None \<and> json_stringify Function = Inr None \<and>
   json_parse (ascii ''undefined'') = Inl syntaxError \<and>
   indexOf (ascii ''hello\<newline>'') returnMarker = - 1 \<and>
   harness_stdout json_stringify silent_body = ascii ''hello\<newline>__RETURN_VALUE__:undefined\<newline>'' \<and>
   decode json_parse (harness_stdout json_stringify silent_body) = (None, ascii ''hello\<newline>'')"
proof -
  have b: "silent_body [] = (Inr Undefined, ascii ''hello\<newline>'')"
    by (simp add: silent_body_def console_log_def ascii_def LF_def)
  have s: "json_stringify Undefined = Inr None" by simp
  have p: "json_parse (ascii ''undefined'') = Inl syntaxError"
    by (simp add: json_parse_def ascii_def json_trim_def json_ws_def is_digit_def)
  have i: "indexOf (ascii ''hello\<newline>'') returnMarker = - 1"
    by (simp add: indexOf_def returnMarker_def ascii_def)
  have f: "json_stringify Function = Inr None" by simp
  note r = undefined_result_decoded [of silent_body Undefined "ascii ''hello\<newline>''" json_stringify
      json_parse syntaxError, OF b s p i]
  from r have o: "harness_stdout json_stringify silent_body =
      ascii ''hello\<newline>__RETURN_VALUE__:undefined\<newline>''"
    by (simp add: returnMarker_def ascii_def LF_def)
  from r have d: "decode json_parse (harness_stdout json_stringify silent_body) =
      (None, ascii ''hello\<newline>'')"
    by (rule conjunct2)
  from b s f p i o d show ?thesis
    by (intro conjI)
qed

text \<open>
  C10 as stated fails for a body that prints the token itself and returns nothing: the
  decoded value is 1, and the harness's own sentinel line stays in the cleaned output.
\<close>

theorem decoy_sentinel_undefined_counterexample:
  "decoy_silent_body [] = (Inr Undefined, ascii ''__RETURN_VALUE__:1\<newline>'') \<and>
   json_stringify Undefined = Inr None \<and>
   json_parse (ascii ''undefined'') = Inl syntaxError \<and>
   harness_stdout json_stringify decoy_silent_body =
     ascii ''__RETURN_VALUE__:1\<newline>__RETURN_VALUE__:undefined\<newline>'' \<and>
   decode json_parse (harness_stdout json_stringify decoy_silent_body) =
     (Some (Number 1), ascii ''__RETURN_VALUE__:undefined\<newline>'') \<and>
   fst (decode json_parse (harness_stdout json_stringify decoy_silent_body)) \<noteq> None"
proof -
  have b: "decoy_silent_body [] = (Inr Undefined, ascii ''__RETURN_VALUE__:1\<newline>'')"
    by (simp add: decoy_silent_body_def console_log_def ascii_def LF_def)
  have s: "json_stringify Undefined = Inr None" by simp
  have p: "json_parse (ascii ''undefined'') = Inl syntaxError"
    by (simp add: json_parse_def ascii_def json_trim_def json_ws_def is_digit_def)
  have p1: "json_parse (ascii ''1'') = Inr (Number 1)"
    by (simp add: json_parse_def ascii_def json_trim_def json_ws_def is_digit_def
        json_integer_def digits_value_def)
  have out: "harness_stdout json_stringify decoy_silent_body =
      ascii ''__RETURN_VALUE__:1\<newline>__RETURN_VALUE__:undefined\<newline>''"
    using harness_stdout_returns [of decoy_silent_body Undefined
        "ascii ''__RETURN_VALUE__:1\<newline>''" json_stringify None] b s
    by (simp add: returnMarker_def ascii_def LF_def)
  have i: "indexOf (ascii ''__RETURN_VALUE__:1\<newline>__RETURN_VALUE__:undefined\<newline>'') returnMarker = int 0"
    by (simp add: indexOf_def returnMarker_def ascii_def)
  have d: "decode json_parse (ascii ''__RETURN_VALUE__:1\<newline>__RETURN_VALUE__:undefined\<newline>'') =
      (Some (Number 1), ascii ''__RETURN_VALUE__:undefined\<newline>'')"
    using decode_found [OF i, of json_parse] p1
    by (simp add: payload_candidate_def after_payload_line_def try_parse_def returnMarker_def
        ascii_def LF_def)
  from b s p out d show ?thesis by simp
qed

end
